theory Spec2Isabelle
  imports Main
begin

section \<open>Python values used by the scripts\<close>

text \<open>
  Exceptions are values: every function that can raise returns \<open>pyexc + 'a\<close>, with
  \<open>Inl\<close> carrying the exception and its message (what \<open>str(e)\<close> gives).
\<close>

datatype pyexc =
    ValueError string
  | OverflowError string
  | ZeroDivisionError string
  | UnboundLocalError string
  | PyException string

definition then_exc :: "'e + 'a \<Rightarrow> ('a \<Rightarrow> 'e + 'b) \<Rightarrow> 'e + 'b" where
  "then_exc r f = (case r of Inl e \<Rightarrow> Inl e | Inr v \<Rightarrow> f v)"

fun exc_message :: "pyexc \<Rightarrow> string" where
  "exc_message (ValueError m) = m"
| "exc_message (OverflowError m) = m"
| "exc_message (ZeroDivisionError m) = m"
| "exc_message (UnboundLocalError m) = m"
| "exc_message (PyException m) = m"

subsection \<open>Decimal text of integers\<close>

definition digit_char :: "int \<Rightarrow> char" where
  "digit_char d = ''0123456789'' ! nat (d mod 10)"

function str_digits :: "int \<Rightarrow> string" where
  "str_digits n = (if n < 10 then [digit_char n] else str_digits (n div 10) @ [digit_char (n mod 10)])"
  by pat_completeness auto
termination
  by (relation "measure nat") auto

declare str_digits.simps [simp del]

definition py_str_int :: "int \<Rightarrow> string" where
  "py_str_int i = (if i < 0 then CHR ''-'' # str_digits (- i) else str_digits i)"

text \<open>\<open>str.zfill(width)\<close>: zeros go after a leading sign.\<close>

definition zfill :: "nat \<Rightarrow> string \<Rightarrow> string" where
  "zfill width s =
     (let pad = replicate (width - length s) CHR ''0''
      in case s of
           [] \<Rightarrow> pad
         | c # r \<Rightarrow> if c = CHR ''+'' \<or> c = CHR ''-'' then c # pad @ r else pad @ s)"

subsection \<open>Binary64 floats\<close>

text \<open>
  A Python float is an IEEE 754 binary64 value. \<open>Finite s m e\<close> stands for
  \<open>(-1)^s * m * 2^e\<close> with \<open>0 \<le> m\<close> (so \<open>Finite True 0 0\<close> is \<open>-0.0\<close>).
  Every arithmetic result is the exact rational result rounded to the nearest value
  with a 53-bit significand, ties to even, with gradual underflow below \<open>2^-1022\<close>.
\<close>

datatype pyfloat = Finite bool int int | Infinity bool | NaN

datatype pynum = PyInt int | PyFloat pyfloat

function bit_length :: "int \<Rightarrow> int" where
  "bit_length n = (if n \<le> 0 then 0 else 1 + bit_length (n div 2))"
  by pat_completeness auto
termination
  by (relation "measure nat") auto

declare bit_length.simps [simp del]

definition pow2 :: "int \<Rightarrow> int" where
  "pow2 k = 2 ^ nat k"

text \<open>\<open>round_half_even n d\<close> is the integer nearest to \<open>n / d\<close> (\<open>0 \<le> n\<close>, \<open>0 < d\<close>).\<close>

definition round_half_even :: "int \<Rightarrow> int \<Rightarrow> int" where
  "round_half_even n d =
     (let q = n div d; r = n mod d
      in if 2 * r < d then q
         else if d < 2 * r then q + 1
         else if even q then q else q + 1)"

text \<open>\<open>floor_log2 n d\<close> is the \<open>k\<close> with \<open>2^k \<le> n / d < 2^(k+1)\<close> (\<open>0 < n\<close>, \<open>0 < d\<close>).\<close>

definition floor_log2 :: "int \<Rightarrow> int \<Rightarrow> int" where
  "floor_log2 n d =
     (let k = bit_length n - bit_length d
      in if (if 0 \<le> k then d * pow2 k \<le> n else d \<le> n * pow2 (- k)) then k else k - 1)"

text \<open>The binary64 value nearest to \<open>(-1)^s * n / d\<close>; \<open>Infinity\<close> on overflow.\<close>

definition round_to_double :: "bool \<Rightarrow> int \<Rightarrow> int \<Rightarrow> pyfloat" where
  "round_to_double s n d =
     (if n = 0 then Finite s 0 0
      else
        let p = max (floor_log2 n d - 52) (- 1074);
            m = (if 0 \<le> p then round_half_even n (d * pow2 p)
                 else round_half_even (n * pow2 (- p)) d)
        in if 971 < p \<or> (p = 971 \<and> 2 ^ 53 \<le> m) then Infinity s else Finite s m p)"

definition round_dyadic :: "bool \<Rightarrow> int \<Rightarrow> int \<Rightarrow> pyfloat" where
  "round_dyadic s n e =
     (if 0 \<le> e then round_to_double s (n * pow2 e) 1 else round_to_double s n (pow2 (- e)))"

text \<open>\<open>float(i)\<close> for an int.\<close>

definition float_of_int :: "int \<Rightarrow> pyexc + pyfloat" where
  "float_of_int a =
     (case round_to_double (a < 0) \<bar>a\<bar> 1 of
        Infinity _ \<Rightarrow> Inl (OverflowError ''int too large to convert to float'')
      | f \<Rightarrow> Inr f)"

text \<open>\<open>a / b\<close> for two ints: the correctly rounded quotient.\<close>

definition int_truediv :: "int \<Rightarrow> int \<Rightarrow> pyexc + pyfloat" where
  "int_truediv a b =
     (if b = 0 then Inl (ZeroDivisionError ''division by zero'')
      else case round_to_double ((a < 0) \<noteq> (b < 0)) \<bar>a\<bar> \<bar>b\<bar> of
             Infinity _ \<Rightarrow> Inl (OverflowError ''integer division result too large for a float'')
           | f \<Rightarrow> Inr f)"


definition smant :: "bool \<Rightarrow> int \<Rightarrow> int" where
  "smant s m = (if s then - m else m)"

fun float_add :: "pyfloat \<Rightarrow> pyfloat \<Rightarrow> pyfloat" where
  "float_add (Finite s1 m1 e1) (Finite s2 m2 e2) =
     (let e = min e1 e2;
          t = smant s1 m1 * pow2 (e1 - e) + smant s2 m2 * pow2 (e2 - e)
      in if t = 0 then Finite (s1 \<and> s2) 0 0 else round_dyadic (t < 0) \<bar>t\<bar> e)"
| "float_add (Infinity s1) (Infinity s2) = (if s1 = s2 then Infinity s1 else NaN)"
| "float_add (Infinity s1) (Finite s2 m2 e2) = Infinity s1"
| "float_add (Finite s1 m1 e1) (Infinity s2) = Infinity s2"
| "float_add NaN y = NaN"
| "float_add x NaN = NaN"


fun float_mul :: "pyfloat \<Rightarrow> pyfloat \<Rightarrow> pyfloat" where
  "float_mul (Finite s1 m1 e1) (Finite s2 m2 e2) =
     (if m1 = 0 \<or> m2 = 0 then Finite (s1 \<noteq> s2) 0 0
      else round_dyadic (s1 \<noteq> s2) (m1 * m2) (e1 + e2))"
| "float_mul (Infinity s1) (Infinity s2) = Infinity (s1 \<noteq> s2)"
| "float_mul (Infinity s1) (Finite s2 m2 e2) = (if m2 = 0 then NaN else Infinity (s1 \<noteq> s2))"
| "float_mul (Finite s1 m1 e1) (Infinity s2) = (if m1 = 0 then NaN else Infinity (s1 \<noteq> s2))"
| "float_mul NaN y = NaN"
| "float_mul x NaN = NaN"

text \<open>\<open>x / y\<close> for two floats; Python raises on a zero divisor before anything else.\<close>

fun float_div :: "pyfloat \<Rightarrow> pyfloat \<Rightarrow> pyexc + pyfloat" where
  "float_div x (Finite s2 m2 e2) =
     (if m2 = 0 then Inl (ZeroDivisionError ''float division by zero'')
      else case x of
             Finite s1 m1 e1 \<Rightarrow>
               Inr (if m1 = 0 then Finite (s1 \<noteq> s2) 0 0
                    else round_to_double (s1 \<noteq> s2)
                           (m1 * pow2 (max 0 (e1 - e2))) (m2 * pow2 (max 0 (e2 - e1))))
           | Infinity s1 \<Rightarrow> Inr (Infinity (s1 \<noteq> s2))
           | NaN \<Rightarrow> Inr NaN)"
| "float_div (Finite s1 m1 e1) (Infinity s2) = Inr (Finite (s1 \<noteq> s2) 0 0)"
| "float_div (Infinity s1) (Infinity s2) = Inr NaN"
| "float_div NaN (Infinity s2) = Inr NaN"
| "float_div x NaN = Inr NaN"

text \<open>
  Comparison is exact, also between an int and a float: \<open>Some (-1)\<close>, \<open>Some 0\<close>,
  \<open>Some 1\<close> for less, equal, greater, and \<open>None\<close> when a NaN takes part (every
  ordering test is then false).
\<close>

fun float_cmp :: "pyfloat \<Rightarrow> pyfloat \<Rightarrow> int option" where
  "float_cmp (Finite s1 m1 e1) (Finite s2 m2 e2) =
     (let e = min e1 e2
      in Some (sgn (smant s1 m1 * pow2 (e1 - e) - smant s2 m2 * pow2 (e2 - e))))"
| "float_cmp (Infinity s1) (Infinity s2) = Some (if s1 = s2 then 0 else if s1 then - 1 else 1)"
| "float_cmp (Infinity s1) (Finite s2 m2 e2) = Some (if s1 then - 1 else 1)"
| "float_cmp (Finite s1 m1 e1) (Infinity s2) = Some (if s2 then 1 else - 1)"
| "float_cmp NaN y = None"
| "float_cmp x NaN = None"

fun exact_float :: "pynum \<Rightarrow> pyfloat" where
  "exact_float (PyInt a) = Finite (a < 0) \<bar>a\<bar> 0"
| "exact_float (PyFloat f) = f"

definition py_cmp :: "pynum \<Rightarrow> pynum \<Rightarrow> int option" where
  "py_cmp a b = float_cmp (exact_float a) (exact_float b)"

definition py_lt :: "pynum \<Rightarrow> pynum \<Rightarrow> bool" where
  "py_lt a b = (py_cmp a b = Some (- 1))"

definition py_gt :: "pynum \<Rightarrow> pynum \<Rightarrow> bool" where
  "py_gt a b = (py_cmp a b = Some 1)"

definition py_ge :: "pynum \<Rightarrow> pynum \<Rightarrow> bool" where
  "py_ge a b = (py_cmp a b = Some 0 \<or> py_cmp a b = Some 1)"

fun py_abs :: "pynum \<Rightarrow> pynum" where
  "py_abs (PyInt a) = PyInt \<bar>a\<bar>"
| "py_abs (PyFloat (Finite s m e)) = PyFloat (Finite False m e)"
| "py_abs (PyFloat (Infinity s)) = PyFloat (Infinity False)"
| "py_abs (PyFloat NaN) = PyFloat NaN"



fun py_truediv :: "pynum \<Rightarrow> pynum \<Rightarrow> pyexc + pyfloat" where
  "py_truediv (PyInt a) (PyInt b) = int_truediv a b"
| "py_truediv (PyInt a) (PyFloat g) = then_exc (float_of_int a) (\<lambda>f. float_div f g)"
| "py_truediv (PyFloat f) (PyInt b) = then_exc (float_of_int b) (\<lambda>g. float_div f g)"
| "py_truediv (PyFloat f) (PyFloat g) = float_div f g"

text \<open>
  The format specification \<open>.2f\<close>: the exact binary value rounded to hundredths, ties
  to even, with the sign bit shown also when the digits are all zero.
\<close>

fun fmt_2f :: "pyfloat \<Rightarrow> string" where
  "fmt_2f (Finite s m e) =
     (let c = (if 0 \<le> e then m * 100 * pow2 e else round_half_even (m * 100) (pow2 (- e)))
      in (if s then ''-'' else '''') @ str_digits (c div 100) @ ''.'' @ zfill 2 (str_digits (c mod 100)))"
| "fmt_2f (Infinity s) = (if s then ''-inf'' else ''inf'')"
| "fmt_2f NaN = ''nan''"

text \<open>An int is converted to float before \<open>.2f\<close> is applied.\<close>

fun format_2f :: "pynum \<Rightarrow> pyexc + string" where
  "format_2f (PyInt a) = then_exc (float_of_int a) (\<lambda>f. Inr (fmt_2f f))"
| "format_2f (PyFloat f) = Inr (fmt_2f f)"

section \<open>parse\_number\_to\_string.py\<close>

definition suffixes :: "(int \<times> string) list" where
  "suffixes = [(1000000000, ''B''), (1000000, ''M''), (1000, ''K'')]"

text \<open>The \<open>for\<close> loop over \<open>suffixes\<close>, leaving at the first threshold reached.\<close>

fun find_suffix :: "pynum \<Rightarrow> (int \<times> string) list \<Rightarrow> string option \<times> int" where
  "find_suffix num_abs [] = (None, 1)"
| "find_suffix num_abs ((threshold, suffix) # rest) =
     (if py_ge num_abs (PyInt threshold) then (Some suffix, threshold)
      else find_suffix num_abs rest)"

text \<open>Truth value of \<open>chosen_suffix\<close>: \<open>None\<close> and the empty string are false.\<close>

fun truthy :: "string option \<Rightarrow> bool" where
  "truthy None = False"
| "truthy (Some s) = (s \<noteq> [])"

definition format_number :: "pynum \<Rightarrow> pyexc + (string \<times> string option \<times> int)" where
  "format_number num =
     (let is_negative = py_lt num (PyInt 0);
          num_abs = py_abs num;
          (chosen_suffix, chosen_magnitude) =
             (if py_ge num_abs (PyInt 1000) then find_suffix num_abs suffixes else (None, 1))
      in then_exc
           (if truthy chosen_suffix
            then then_exc (py_truediv num (PyInt chosen_magnitude))
                   (\<lambda>scaled. Inr (fmt_2f scaled @ the chosen_suffix))
            else format_2f num)
           (\<lambda>result.
              Inr (if is_negative \<and> py_ge num_abs (PyInt 1000) then ''-'' @ result
                   else if is_negative then ''-'' @ result
                   else result,
                   chosen_suffix, chosen_magnitude)))"


section \<open>Python string operations\<close>

definition starts_with :: "string \<Rightarrow> string \<Rightarrow> bool" where
  "starts_with p s = (take (length p) s = p)"

text \<open>\<open>sub in s\<close>: \<open>sub\<close> occurs in \<open>s\<close> as a contiguous piece.\<close>

fun str_contains :: "string \<Rightarrow> string \<Rightarrow> bool" where
  "str_contains sub [] = (sub = [])"
| "str_contains sub (c # cs) = (starts_with sub (c # cs) \<or> str_contains sub cs)"

text \<open>
  \<open>s.replace(old, new)\<close>: the occurrences of \<open>old\<close> are found from left to right
  without overlap and each is replaced. An empty \<open>old\<close> matches before every
  character and at the end.
\<close>

function str_replace :: "string \<Rightarrow> string \<Rightarrow> string \<Rightarrow> string" where
  "str_replace old new s =
     (if old = [] then new @ concat (map (\<lambda>c. c # new) s)
      else if s = [] then []
      else if starts_with old s then new @ str_replace old new (drop (length old) s)
      else hd s # str_replace old new (tl s))"
  by pat_completeness auto
termination
  by (relation "measure (\<lambda>(old, new, s). length s)") auto

declare str_replace.simps [simp del]

section \<open>timestamp\_conversion.py: the template translator\<close>

definition convert_readable_to_strftime :: "string \<Rightarrow> string" where
  "convert_readable_to_strftime readable_format =
     (let result = readable_format;
          result = str_replace ''YYYY'' ''%Y'' result;
          result = str_replace ''MM'' ''%m'' result;
          result = str_replace ''DD'' ''%d'' result;
          result = str_replace ''HH'' ''%H'' result;
          result = str_replace ''MI'' ''%M'' result;
          result = str_replace ''SS'' ''%S'' result;
          result = str_replace ''offset'' ''%z'' result;
          result = str_replace ''TZ'' ''%Z'' result
      in result)"

section \<open>The datetime library, as far as the converter uses it\<close>

text \<open>
  \<open>datetime\<close> objects as records. \<open>tzinfo\<close> is \<open>None\<close> for a naive value and
  otherwise the UTC offset of its fixed-offset \<open>timezone\<close>, in microseconds.
\<close>

record datetime =
  year :: int
  month :: int
  day :: int
  hour :: int
  minute :: int
  second :: int
  microsecond :: int
  tzinfo :: "int option"

text \<open>
  What the converter takes from its surroundings: the library's ISO parser (the message
  of the \<open>ValueError\<close> on the left), the UTC offset in seconds that the host's zone
  rules give a naive local time, and the C library's formatting of a year and of the
  conversions this model does not name.
\<close>

record pylib =
  fromisoformat :: "string \<Rightarrow> string + datetime"
  local_offset :: "datetime \<Rightarrow> int"
  year_padded :: bool
  strftime_other :: "char \<Rightarrow> datetime \<Rightarrow> string"

subsection \<open>Proleptic Gregorian calendar\<close>

definition is_leap :: "int \<Rightarrow> bool" where
  "is_leap y = (y mod 4 = 0 \<and> (y mod 100 \<noteq> 0 \<or> y mod 400 = 0))"

definition days_in_month_table :: "int list" where
  "days_in_month_table = [31, 28, 31, 30, 31, 30, 31, 31, 30, 31, 30, 31]"

definition days_before_year :: "int \<Rightarrow> int" where
  "days_before_year y = (let p = y - 1 in p * 365 + p div 4 - p div 100 + p div 400)"

definition days_in_month :: "int \<Rightarrow> int \<Rightarrow> int" where
  "days_in_month y m = (if m = 2 \<and> is_leap y then 29 else days_in_month_table ! nat (m - 1))"

definition days_before_month_plain :: "int \<Rightarrow> int" where
  "days_before_month_plain m = sum_list (take (nat (m - 1)) days_in_month_table)"

definition days_before_month :: "int \<Rightarrow> int \<Rightarrow> int" where
  "days_before_month y m = days_before_month_plain m + (if 2 < m \<and> is_leap y then 1 else 0)"

definition ymd2ord :: "int \<Rightarrow> int \<Rightarrow> int \<Rightarrow> int" where
  "ymd2ord y m d = days_before_year y + days_before_month y m + d"

definition ord2ymd :: "int \<Rightarrow> int \<times> int \<times> int" where
  "ord2ymd ordinal =
     (let n = ordinal - 1;
          n400 = n div 146097; na = n mod 146097;
          n100 = na div 36524; nb = na mod 36524;
          n4 = nb div 1461; nc = nb mod 1461;
          n1 = nc div 365; nd = nc mod 365;
          y = n400 * 400 + 1 + n100 * 100 + n4 * 4 + n1
      in if n1 = 4 \<or> n100 = 4 then (y - 1, 12, 31)
         else
           let leapyear = (n1 = 3 \<and> (n4 \<noteq> 24 \<or> n100 = 3));
               m = (nd + 50) div 32;
               preceding = days_before_month_plain m + (if 2 < m \<and> leapyear then 1 else 0)
           in if nd < preceding
              then (y, m - 1,
                    nd - (preceding - (days_in_month_table ! nat (m - 2)
                                       + (if m - 1 = 2 \<and> leapyear then 1 else 0))) + 1)
              else (y, m, nd - preceding + 1))"

text \<open>Microseconds from the start of ordinal day 0 to the wall-clock fields.\<close>

definition wall_micros :: "datetime \<Rightarrow> int" where
  "wall_micros dt =
     ((ymd2ord (year dt) (month dt) (day dt) * 86400
        + hour dt * 3600 + minute dt * 60 + second dt) * 1000000 + microsecond dt)"

definition epoch_ordinal :: int where
  "epoch_ordinal = 719163"

text \<open>The invariant of every \<open>datetime\<close> object.\<close>

definition datetime_ok :: "datetime \<Rightarrow> bool" where
  "datetime_ok dt =
     (1 \<le> year dt \<and> year dt \<le> 9999 \<and> 1 \<le> month dt \<and> month dt \<le> 12
      \<and> 1 \<le> day dt \<and> day dt \<le> days_in_month (year dt) (month dt)
      \<and> 0 \<le> hour dt \<and> hour dt < 24 \<and> 0 \<le> minute dt \<and> minute dt < 60
      \<and> 0 \<le> second dt \<and> second dt < 60
      \<and> 0 \<le> microsecond dt \<and> microsecond dt < 1000000
      \<and> (case tzinfo dt of None \<Rightarrow> True | Some off \<Rightarrow> \<bar>off\<bar> < 86400000000))"

subsection \<open>timestamp, int, astimezone\<close>

text \<open>
  \<open>dt.timestamp()\<close>: for an aware value the difference to the epoch as a
  \<open>timedelta\<close>, whose \<open>total_seconds()\<close> is its microseconds divided by \<open>10**6\<close>;
  for a naive value the host's whole seconds plus \<open>microsecond / 1e6\<close>.
\<close>

definition timestamp :: "pylib \<Rightarrow> datetime \<Rightarrow> pyexc + pyfloat" where
  "timestamp lib dt =
     (case tzinfo dt of
        Some off \<Rightarrow>
          int_truediv (wall_micros dt - off - epoch_ordinal * 86400 * 1000000) 1000000
      | None \<Rightarrow>
          then_exc (float_of_int
              ((wall_micros dt - microsecond dt) div 1000000 - local_offset lib dt
                 - epoch_ordinal * 86400)) (\<lambda>seconds.
          then_exc (py_truediv (PyInt (microsecond dt)) (PyFloat (Finite False 1000000 0))) (\<lambda>frac.
            Inr (float_add seconds frac))))"

text \<open>\<open>int(x)\<close> for a float: truncation toward zero.\<close>

fun py_int :: "pyfloat \<Rightarrow> pyexc + int" where
  "py_int (Finite s m e) = Inr (smant s (if 0 \<le> e then m * pow2 e else m div pow2 (- e)))"
| "py_int (Infinity s) = Inl (OverflowError ''cannot convert float infinity to integer'')"
| "py_int NaN = Inl (ValueError ''cannot convert float NaN to integer'')"

text \<open>
  \<open>dt.astimezone(timezone.utc).replace(tzinfo=None)\<close>. A value that already carries
  \<open>timezone.utc\<close> is returned as it is; otherwise the offset is subtracted, which
  raises when the result leaves the years 1 to 9999.
\<close>

definition astimezone_utc :: "pylib \<Rightarrow> datetime \<Rightarrow> pyexc + datetime" where
  "astimezone_utc lib dt =
     (if tzinfo dt = Some 0 then Inr (dt\<lparr>tzinfo := None\<rparr>)
      else
        let off = (case tzinfo dt of Some off \<Rightarrow> off | None \<Rightarrow> local_offset lib dt * 1000000);
            t = wall_micros dt - off;
            days = t div 86400000000;
            rest = t mod 86400000000;
            secs = rest div 1000000
        in if 0 < days \<and> days \<le> 3652059
           then (case ord2ymd days of (y, m, d) \<Rightarrow>
                   Inr \<lparr>year = y, month = m, day = d,
                        hour = secs div 3600, minute = secs mod 3600 div 60, second = secs mod 60,
                        microsecond = rest mod 1000000, tzinfo = None\<rparr>)
           else Inl (OverflowError ''date value out of range''))"

subsection \<open>strftime\<close>

text \<open>The printf conversion \<open>%0wd\<close> of an int.\<close>

definition pad :: "nat \<Rightarrow> int \<Rightarrow> string" where
  "pad w n = zfill w (py_str_int n)"

definition offset_text :: "bool \<Rightarrow> int \<Rightarrow> string" where
  "offset_text colons off =
     (let a = \<bar>off\<bar>;
          sep = (if colons then [CHR '':''] else []);
          h = a div 3600000000;
          m = a mod 3600000000 div 60000000;
          s = a mod 60000000 div 1000000;
          u = a mod 1000000
      in (if off < 0 then [CHR ''-''] else [CHR ''+'']) @ pad 2 h @ sep @ pad 2 m
         @ (if u \<noteq> 0 then sep @ pad 2 s @ [CHR ''.''] @ pad 6 u
            else if s \<noteq> 0 then sep @ pad 2 s else []))"

text \<open>\<open>%z\<close> and \<open>%Z\<close> are expanded by the datetime module itself.\<close>

definition utcoffset_text :: "datetime \<Rightarrow> string" where
  "utcoffset_text dt = (case tzinfo dt of None \<Rightarrow> [] | Some off \<Rightarrow> offset_text False off)"

definition tzname :: "datetime \<Rightarrow> string" where
  "tzname dt =
     (case tzinfo dt of
        None \<Rightarrow> []
      | Some off \<Rightarrow> if off = 0 then ''UTC'' else ''UTC'' @ offset_text True off)"

definition strftime_directive :: "pylib \<Rightarrow> datetime \<Rightarrow> char \<Rightarrow> string" where
  "strftime_directive lib dt c =
     (if c = CHR ''Y'' then (if year_padded lib then pad 4 (year dt) else py_str_int (year dt))
      else if c = CHR ''m'' then pad 2 (month dt)
      else if c = CHR ''d'' then pad 2 (day dt)
      else if c = CHR ''H'' then pad 2 (hour dt)
      else if c = CHR ''M'' then pad 2 (minute dt)
      else if c = CHR ''S'' then pad 2 (second dt)
      else if c = CHR ''f'' then pad 6 (microsecond dt)
      else if c = CHR ''z'' then utcoffset_text dt
      else if c = CHR ''Z'' then tzname dt
      else if c = CHR ''%'' then [CHR ''%'']
      else strftime_other lib c dt)"

text \<open>A percent sign that ends the format is kept.\<close>

fun strftime :: "pylib \<Rightarrow> datetime \<Rightarrow> string \<Rightarrow> string" where
  "strftime lib dt [] = []"
| "strftime lib dt [c] = [c]"
| "strftime lib dt (c # d # rest) =
     (if c = CHR ''%'' then strftime_directive lib dt d @ strftime lib dt rest
      else c # strftime lib dt (d # rest))"


subsection \<open>fromisoformat for the format that isoformat() writes\<close>

text \<open>
  A parser for the documented input of \<open>datetime.fromisoformat\<close> that every
  Python 3 release accepts: \<open>YYYY-MM-DD[*HH[:MM[:SS[.fff[fff]]]][+HH:MM[:SS[.ffffff]]]]\<close>,
  where \<open>*\<close> is any single character. The results below that hold for any
  \<open>pylib\<close> do not depend on it; it stands in for the library where a concrete
  timestamp is evaluated.
\<close>

definition digit_val :: "char \<Rightarrow> int option" where
  "digit_val c =
     map_of [(CHR ''0'', 0), (CHR ''1'', 1), (CHR ''2'', 2), (CHR ''3'', 3), (CHR ''4'', 4),
             (CHR ''5'', 5), (CHR ''6'', 6), (CHR ''7'', 7), (CHR ''8'', 8), (CHR ''9'', 9)] c"

definition is_digit :: "char \<Rightarrow> bool" where
  "is_digit c = (digit_val c \<noteq> None)"

definition dec_val :: "string \<Rightarrow> int" where
  "dec_val s = foldl (\<lambda>a c. 10 * a + the (digit_val c)) 0 s"

definition digits_val :: "string \<Rightarrow> int option" where
  "digits_val s = (if s \<noteq> [] \<and> list_all is_digit s then Some (dec_val s) else None)"

definition parse_hms :: "string \<Rightarrow> (int \<times> int \<times> int \<times> int) option" where
  "parse_hms t =
     (let n = length t
      in if n = 2 then
           (case digits_val t of Some h \<Rightarrow> Some (h, 0, 0, 0) | None \<Rightarrow> None)
         else if n = 5 \<and> t ! 2 = CHR '':'' then
           (case (digits_val (take 2 t), digits_val (drop 3 t)) of
              (Some h, Some m) \<Rightarrow> Some (h, m, 0, 0)
            | _ \<Rightarrow> None)
         else if n = 8 \<and> t ! 2 = CHR '':'' \<and> t ! 5 = CHR '':'' then
           (case (digits_val (take 2 t), digits_val (take 2 (drop 3 t)), digits_val (drop 6 t)) of
              (Some h, Some m, Some s) \<Rightarrow> Some (h, m, s, 0)
            | _ \<Rightarrow> None)
         else if (n = 12 \<or> n = 15) \<and> t ! 2 = CHR '':'' \<and> t ! 5 = CHR '':'' \<and> t ! 8 = CHR ''.'' then
           (case (digits_val (take 2 t), digits_val (take 2 (drop 3 t)),
                  digits_val (take 2 (drop 6 t)), digits_val (drop 9 t)) of
              (Some h, Some m, Some s, Some f) \<Rightarrow> Some (h, m, s, if n = 12 then f * 1000 else f)
            | _ \<Rightarrow> None)
         else None)"

definition not_sign :: "char \<Rightarrow> bool" where
  "not_sign c = (c \<noteq> CHR ''+'' \<and> c \<noteq> CHR ''-'')"

definition parse_iso_time :: "string \<Rightarrow> ((int \<times> int \<times> int \<times> int) \<times> int option) option" where
  "parse_iso_time tstr =
     (case parse_hms (takeWhile not_sign tstr) of
        None \<Rightarrow> None
      | Some hms \<Rightarrow>
          (case dropWhile not_sign tstr of
             [] \<Rightarrow> Some (hms, None)
           | sg # tzstr \<Rightarrow>
               if length tzstr = 5 \<or> length tzstr = 8 \<or> length tzstr = 15
               then (case parse_hms tzstr of
                       None \<Rightarrow> None
                     | Some (h, m, s, u) \<Rightarrow>
                         Some (hms, Some ((if sg = CHR ''-'' then - 1 else 1)
                                            * ((h * 3600 + m * 60 + s) * 1000000 + u))))
               else None))"

definition parse_iso_fields ::
  "string \<Rightarrow> ((int \<times> int \<times> int) \<times> (int \<times> int \<times> int \<times> int) \<times> int option) option" where
  "parse_iso_fields s =
     (if length s < 10 \<or> s ! 4 \<noteq> CHR ''-'' \<or> s ! 7 \<noteq> CHR ''-'' then None
      else case (digits_val (take 4 s), digits_val (take 2 (drop 5 s)),
                 digits_val (take 2 (drop 8 s))) of
             (Some y, Some m, Some d) \<Rightarrow>
               if length s = 10 then Some ((y, m, d), (0, 0, 0, 0), None)
               else (case parse_iso_time (drop 11 s) of
                       None \<Rightarrow> None
                     | Some (hms, tz) \<Rightarrow> Some ((y, m, d), hms, tz))
           | _ \<Rightarrow> None)"

text \<open>\<open>repr\<close> of a string and of a \<open>timedelta\<close>, for the messages.\<close>

definition hex_digit :: "nat \<Rightarrow> char" where
  "hex_digit n = ''0123456789abcdef'' ! (n mod 16)"

definition repr_char :: "char \<Rightarrow> char \<Rightarrow> string" where
  "repr_char quote c =
     (if c = quote \<or> c = CHR 0x5C then [CHR 0x5C, c]
      else if c = CHR 0x0A then [CHR 0x5C, CHR ''n'']
      else if c = CHR 0x0D then [CHR 0x5C, CHR ''r'']
      else if c = CHR 0x09 then [CHR 0x5C, CHR ''t'']
      else if of_char c < (32::nat) \<or> (127::nat) \<le> of_char c
           then [CHR 0x5C, CHR ''x'', hex_digit (of_char c div 16), hex_digit (of_char c)]
      else [c])"

definition py_repr :: "string \<Rightarrow> string" where
  "py_repr s =
     (let quote = (if CHR 0x27 \<in> set s \<and> CHR 0x22 \<notin> set s then CHR 0x22 else CHR 0x27)
      in quote # concat (map (repr_char quote) s) @ [quote])"

definition timedelta_repr :: "int \<Rightarrow> string" where
  "timedelta_repr t =
     (let d = t div 86400000000; s = t mod 86400000000 div 1000000; u = t mod 1000000;
          args = (if d \<noteq> 0 then [''days='' @ py_str_int d] else [])
               @ (if s \<noteq> 0 then [''seconds='' @ py_str_int s] else [])
               @ (if u \<noteq> 0 then [''microseconds='' @ py_str_int u] else [])
      in ''datetime.timedelta(''
         @ (case args of [] \<Rightarrow> ''0'' | a # r \<Rightarrow> a @ concat (map (\<lambda>x. '', '' @ x) r))
         @ '')'')"

definition iso_parse :: "string \<Rightarrow> string + datetime" where
  "iso_parse s =
     (case parse_iso_fields s of
        None \<Rightarrow> Inl (''Invalid isoformat string: '' @ py_repr s)
      | Some ((y, mo, d), (h, mi, sec, us), tz) \<Rightarrow>
          if (case tz of None \<Rightarrow> False | Some off \<Rightarrow> 86400000000 \<le> \<bar>off\<bar>) then
            Inl (''offset must be a timedelta strictly between -timedelta(hours=24) and timedelta(hours=24), not ''
                 @ timedelta_repr (the tz) @ ''.'')
          else if y < 1 \<or> 9999 < y then Inl (''year '' @ py_str_int y @ '' is out of range'')
          else if mo < 1 \<or> 12 < mo then Inl ''month must be in 1..12''
          else if d < 1 \<or> days_in_month y mo < d then Inl ''day is out of range for month''
          else if 23 < h then Inl ''hour must be in 0..23''
          else if 59 < mi then Inl ''minute must be in 0..59''
          else if 59 < sec then Inl ''second must be in 0..59''
          else Inr \<lparr>year = y, month = mo, day = d, hour = h, minute = mi, second = sec,
                    microsecond = us, tzinfo = tz\<rparr>)"

text \<open>
  A reference host: the parser above, a local zone that is UTC, a C library that writes
  the year without padding and leaves a conversion it does not know as it is written.
\<close>

definition reference_lib :: pylib where
  "reference_lib =
     \<lparr>fromisoformat = iso_parse, local_offset = (\<lambda>dt. 0), year_padded = False,
      strftime_other = (\<lambda>c dt. [CHR ''%'', c])\<rparr>"

section \<open>timestamp\_conversion.py: the converter\<close>

text \<open>
  Lines 66 to 79: the library parser is tried on the input; after any failure, an input
  with a sign five characters from its end and no colon three from its end is parsed
  again with a colon put before its last two characters. A failure of that second call
  is not caught here.
\<close>

definition parse_timestamp :: "pylib \<Rightarrow> string \<Rightarrow> pyexc + datetime" where
  "parse_timestamp lib ts =
     (case fromisoformat lib ts of
        Inr dt \<Rightarrow> Inr dt
      | Inl _ \<Rightarrow>
          if 5 \<le> length ts
             \<and> (ts ! (length ts - 5) = CHR ''+'' \<or> ts ! (length ts - 5) = CHR ''-'')
             \<and> ts ! (length ts - 3) \<noteq> CHR '':''
          then (let ts_with_colon = take (length ts - 2) ts @ '':'' @ drop (length ts - 2) ts
                in case fromisoformat lib ts_with_colon of
                     Inl msg \<Rightarrow> Inl (ValueError msg)
                   | Inr dt \<Rightarrow> Inr dt)
          else Inl (ValueError (''Could not parse timestamp: '' @ ts)))"

text \<open>The \<open>except Exception as e\<close> at the end of the function.\<close>

definition reraise :: "pyexc + string \<Rightarrow> pyexc + string" where
  "reraise r =
     (case r of
        Inl e \<Rightarrow> Inl (PyException (''Error converting timestamp: '' @ exc_message e))
      | Inr v \<Rightarrow> Inr v)"

definition convert_timestamp_format :: "pylib \<Rightarrow> string \<Rightarrow> string \<Rightarrow> pyexc + string" where
  "convert_timestamp_format lib ts target_format =
     reraise (then_exc (parse_timestamp lib ts) (\<lambda>dt.
       if target_format = ''epoch_ms'' then
         then_exc (timestamp lib dt) (\<lambda>t.
         then_exc (py_int (float_mul t (Finite False 1000 0))) (\<lambda>i. Inr (py_str_int i)))
       else if target_format = ''epoch_sec'' then
         then_exc (timestamp lib dt) (\<lambda>t.
         then_exc (py_int t) (\<lambda>i. Inr (py_str_int i)))
       else if str_contains ''nnnnnnnnn'' target_format then
         (let microseconds = microsecond dt;
              nanoseconds = microseconds * 1000;
              nanos_str = zfill 9 (py_str_int nanoseconds)
          in then_exc
               (if str_contains ''Z'' target_format then
                  then_exc (astimezone_utc lib dt) (\<lambda>dt_utc.
                    let strftime_format =
                          str_replace ''Z'' '''' (str_replace ''nnnnnnnnn'' ''{NANOS}'' target_format);
                        strftime_format = convert_readable_to_strftime strftime_format
                    in Inr (strftime lib dt_utc strftime_format @ ''Z''))
                else
                  (let strftime_format = str_replace ''nnnnnnnnn'' ''{NANOS}'' target_format;
                       strftime_format = convert_readable_to_strftime strftime_format
                   in Inr (strftime lib dt strftime_format)))
               (\<lambda>result. Inr (str_replace ''{NANOS}'' nanos_str result)))
       else
         (if str_contains ''Z'' target_format then
            then_exc (astimezone_utc lib dt) (\<lambda>dt_utc.
              let strftime_format = str_replace ''Z'' '''' target_format;
                  strftime_format = convert_readable_to_strftime strftime_format
              in Inr (strftime lib dt_utc strftime_format @ ''Z''))
          else
            (let strftime_format = convert_readable_to_strftime target_format
             in Inr (strftime lib dt strftime_format)))))"


section \<open>Notions of the specification\<close>




text \<open>The instant a value denotes, as microseconds UTC (a naive value read as UTC).\<close>

definition instant_micros :: "datetime \<Rightarrow> int" where
  "instant_micros dt = wall_micros dt - (case tzinfo dt of Some off \<Rightarrow> off | None \<Rightarrow> 0)"





section \<open>Results for the number formatter\<close>

text \<open>
  C1. The sign of a negative input is to appear as exactly one leading minus, with
  \<open>format_number(-500)\<close> giving \<open>-500.00\<close>. The code formats the signed number
  and then prepends a second minus: for \<open>-500\<close> it returns \<open>--500.00\<close>.
\<close>

theorem format_number_neg_500:
  "format_number (PyInt (- 500)) = Inr (''--500.00'', None, 1)"
  by code_simp


text \<open>
  C7. For \<open>|n| \<ge> 1000\<close> the number is to be divided by the largest threshold not
  above \<open>|n|\<close> and shown with two fractional digits and the suffix, the threshold
  being returned as scale factor. For a negative number the string the code returns
  is not that rendering: it carries the minus sign twice, here \<open>--1.23B\<close> for
  \<open>-1234567890\<close>, whose quotient by \<open>10^9\<close> renders as \<open>-1.23\<close>.
\<close>

theorem format_number_neg_billion:
  "format_number (PyInt (- 1234567890)) = Inr (''--1.23B'', Some ''B'', 1000000000)"
  by code_simp

text \<open>The instance the specification gives for a positive number does hold.\<close>

lemma format_number_billion:
  "format_number (PyInt 1234567890) = Inr (''1.23B'', Some ''B'', 1000000000)"
  by code_simp

section \<open>Results for the converter\<close>

text \<open>
  C3. \<open>epoch_ms\<close> and \<open>epoch_sec\<close> are to give the whole milliseconds and seconds
  from the epoch to the parsed instant. The code goes through the float
  \<open>dt.timestamp()\<close>: one second and one millisecond after the epoch it answers
  \<open>1000\<close>, not \<open>1001\<close>, because \<open>1.001 * 1000\<close> is \<open>1000.9999999999999\<close> in
  binary64; \<open>2038-03-23T09:21:20.444\<close> UTC, which is 2152948880444 ms after the
  epoch, gives \<open>2152948880443\<close>; and \<open>2600-01-01T00:00:00.999999\<close> UTC, still in
  second 19880899200, gives \<open>19880899201\<close>.
\<close>

theorem epoch_through_float_is_inexact:
  "parse_timestamp reference_lib ''1970-01-01T00:00:01.001+00:00''
     = Inr \<lparr>year = 1970, month = 1, day = 1, hour = 0, minute = 0, second = 1,
            microsecond = 1000, tzinfo = Some 0\<rparr>
   \<and> convert_timestamp_format reference_lib ''1970-01-01T00:00:01.001+00:00'' ''epoch_ms''
       = Inr ''1000''
   \<and> convert_timestamp_format reference_lib ''2038-03-23T09:21:20.444+00:00'' ''epoch_ms''
       = Inr ''2152948880443''
   \<and> convert_timestamp_format reference_lib ''2600-01-01T00:00:00.999999+00:00'' ''epoch_sec''
       = Inr ''19880899201''"
  by code_simp

text \<open>The instance of the specification, at a whole second, is as it says.\<close>

lemma epoch_ms_instance:
  "convert_timestamp_format reference_lib ''2025-11-01T00:00:00-08:00'' ''epoch_ms''
     = Inr ''1761984000000''"
  by code_simp

text \<open>
  C9. An input that cannot be parsed is to raise an error whose message echoes the
  input. When the input ends like a colon-less offset, the second call of the library
  parser is not guarded, and what reaches the caller is the library's message about
  the string with the colon put in, or a message that names no string at all.
\<close>

theorem unparseable_colonless_message:
  "convert_timestamp_format reference_lib ''2025-13-01T00:00:00-0800'' ''YYYY-MM-DD''
     = Inl (PyException ''Error converting timestamp: month must be in 1..12'')
   \<and> convert_timestamp_format reference_lib ''hello-0800'' ''YYYY-MM-DD''
     = Inl (PyException (''Error converting timestamp: Invalid isoformat string: ''
                          @ [CHR 0x27] @ ''hello-08:00'' @ [CHR 0x27]))"
  by code_simp


section \<open>Facts about string replacement\<close>


lemma str_replace_Nil [simp]: "old \<noteq> [] \<Longrightarrow> str_replace old new [] = []"
  by (simp add: str_replace.simps)









lemma str_contains_append: "str_contains sub (a @ sub @ b)"
  by (induction a) (auto simp: starts_with_def, (cases sub; cases b; simp add: starts_with_def)+)








section \<open>Results for the template translator\<close>
















section \<open>Facts about decimal digits\<close>

lemma digit_val_digit_char: "digit_val (digit_char d) = Some (d mod 10)"
proof -
  have "d mod 10 \<in> {0, 1, 2, 3, 4, 5, 6, 7, 8, 9}" by (simp, presburger)
  then show ?thesis
    by (auto simp: digit_char_def digit_val_def)
qed

lemma is_digit_digit_char [simp]: "is_digit (digit_char d)"
  by (simp add: is_digit_def digit_val_digit_char)

lemma dec_val_snoc: "dec_val (s @ [c]) = 10 * dec_val s + the (digit_val c)"
  by (simp add: dec_val_def)

lemma is_digit_not_sign: "is_digit c \<Longrightarrow> c \<noteq> CHR ''+'' \<and> c \<noteq> CHR ''-'' \<and> c \<noteq> CHR '':'' \<and> c \<noteq> CHR ''.''"
  by (auto simp: is_digit_def digit_val_def)

lemma str_digits_small: "n < 10 \<Longrightarrow> str_digits n = [digit_char n]"
  by (subst str_digits.simps) simp

lemma str_digits_big: "10 \<le> n \<Longrightarrow> str_digits n = str_digits (n div 10) @ [digit_char (n mod 10)]"
  by (subst str_digits.simps) simp






lemma zfill_digits:
  "list_all is_digit s \<Longrightarrow> zfill w s = replicate (w - length s) CHR ''0'' @ s"
  by (cases s) (auto simp: zfill_def Let_def dest: is_digit_not_sign)



section \<open>Results for the converter, continued\<close>




text \<open>
  C5. Let a timestamp end in a sign and four characters with no colon among them (the
  third-last is not a colon), let the same text with a colon before its last two
  characters be accepted by the library parser, and let the library either reject the
  colon-less text (Python up to 3.10) or read it as the same value (3.11 and later).
  Then both texts give the same result for every target format.
\<close>

theorem colonless_offset_same_result:
  assumes shape: "ts = base @ [sg, h1, h2, m1, m2]"
      and sg: "sg = CHR ''+'' \<or> sg = CHR ''-''"
      and h2: "h2 \<noteq> CHR '':''"
      and colon: "fromisoformat lib (base @ [sg, h1, h2] @ '':'' @ [m1, m2]) = Inr dt"
      and direct: "fromisoformat lib ts = Inr dt \<or> (\<exists>msg. fromisoformat lib ts = Inl msg)"
  shows "convert_timestamp_format lib ts target_format
           = convert_timestamp_format lib (base @ [sg, h1, h2] @ '':'' @ [m1, m2]) target_format"
proof -
  have a: "parse_timestamp lib (base @ [sg, h1, h2] @ '':'' @ [m1, m2]) = Inr dt"
    using colon by (simp add: parse_timestamp_def)
  have len: "length ts = length base + 5" using shape by simp
  have i5: "ts ! (length ts - 5) = sg" using shape by (simp add: nth_append)
  have i3: "ts ! (length ts - 3) = h2" using shape by (simp add: nth_append)
  have wc: "take (length ts - 2) ts @ '':'' @ drop (length ts - 2) ts
              = base @ [sg, h1, h2] @ '':'' @ [m1, m2]"
    using shape by simp
  have b: "parse_timestamp lib ts = Inr dt"
    using direct
  proof
    assume "fromisoformat lib ts = Inr dt"
    then show ?thesis by (simp add: parse_timestamp_def)
  next
    assume "\<exists>msg. fromisoformat lib ts = Inl msg"
    then obtain msg where "fromisoformat lib ts = Inl msg" ..
    then show ?thesis
      unfolding parse_timestamp_def Let_def wc
      using len i5 i3 sg h2 colon by auto
  qed
  show ?thesis
    unfolding convert_timestamp_format_def a b ..
qed

theorem colonless_offset_same_result_witness:
  "convert_timestamp_format reference_lib ''2025-11-01T00:00:00-0800'' ''YYYY-MM-DD''
     = convert_timestamp_format reference_lib ''2025-11-01T00:00:00-08:00'' ''YYYY-MM-DD''
   \<and> convert_timestamp_format reference_lib ''2025-11-01T00:00:00-08:00'' ''YYYY-MM-DD''
     = Inr ''2025-11-01''"
proof -
  let ?dt = "\<lparr>year = 2025, month = 11, day = 1, hour = 0, minute = 0, second = 0,
              microsecond = 0, tzinfo = Some (- 28800000000)\<rparr>"
  have s: "''2025-11-01T00:00:00-0800''
             = ''2025-11-01T00:00:00'' @ [CHR ''-'', CHR ''0'', CHR ''8'', CHR ''0'', CHR ''0'']"
    by simp
  have c: "fromisoformat reference_lib
             (''2025-11-01T00:00:00'' @ [CHR ''-'', CHR ''0'', CHR ''8''] @ '':'' @ [CHR ''0'', CHR ''0''])
           = Inr ?dt"
    by code_simp
  have d: "fromisoformat reference_lib ''2025-11-01T00:00:00-0800''
             = Inl (''Invalid isoformat string: '' @ [CHR 0x27] @ ''2025-11-01T00:00:00-0800'' @ [CHR 0x27])"
    by code_simp
  have e: "convert_timestamp_format reference_lib ''2025-11-01T00:00:00-08:00'' ''YYYY-MM-DD''
             = Inr ''2025-11-01''"
    by code_simp
  have "convert_timestamp_format reference_lib ''2025-11-01T00:00:00-0800'' ''YYYY-MM-DD''
     = convert_timestamp_format reference_lib
         (''2025-11-01T00:00:00'' @ [CHR ''-'', CHR ''0'', CHR ''8''] @ '':'' @ [CHR ''0'', CHR ''0''])
         ''YYYY-MM-DD''"
    using colonless_offset_same_result[OF s _ _ c, of "''YYYY-MM-DD''"] d by simp
  then show ?thesis using e by simp
qed


section \<open>The documented ISO format and the offset template\<close>

lemma digit_char_mod [simp]: "digit_char (n mod 10) = digit_char n"
  by (simp add: digit_char_def)

lemma digit_char_0: "digit_char 0 = CHR ''0''"
  by (simp add: digit_char_def)

lemma div10_10: "(n::int) div 10 div 10 = n div 100"
  using zdiv_zmult2_eq[of 10 n 10] by simp

lemma div100_10: "(n::int) div 100 div 10 = n div 1000"
  using zdiv_zmult2_eq[of 10 n 100] by simp

lemma pad2_eq:
  assumes "0 \<le> n" "n < 100"
  shows "pad 2 n = [digit_char (n div 10), digit_char n]"
proof (cases "n < 10")
  case True
  then show ?thesis
    using assms by (simp add: pad_def py_str_int_def str_digits_small zfill_digits digit_char_0)
next
  case False
  then have "str_digits n = [digit_char (n div 10), digit_char n]"
    using assms by (simp add: str_digits_big str_digits_small)
  then show ?thesis
    using assms by (simp add: pad_def py_str_int_def zfill_digits)
qed

lemma str_digits4:
  assumes "1000 \<le> n" "n < 10000"
  shows "str_digits n = [digit_char (n div 1000), digit_char (n div 100), digit_char (n div 10), digit_char n]"
proof -
  have a: "str_digits n = str_digits (n div 10) @ [digit_char n]"
    using assms by (simp add: str_digits_big)
  have b: "str_digits (n div 10) = str_digits (n div 100) @ [digit_char (n div 10)]"
    using assms by (simp add: str_digits_big div10_10)
  have c: "str_digits (n div 100) = str_digits (n div 1000) @ [digit_char (n div 100)]"
    using assms by (simp add: str_digits_big div100_10)
  have d: "str_digits (n div 1000) = [digit_char (n div 1000)]"
    using assms by (simp add: str_digits_small)
  show ?thesis by (simp add: a b c d)
qed

lemma pad4_eq:
  assumes "0 \<le> n" "n < 10000"
  shows "pad 4 n = [digit_char (n div 1000), digit_char (n div 100), digit_char (n div 10), digit_char n]"
proof -
  consider "n < 10" | "10 \<le> n" "n < 100" | "100 \<le> n" "n < 1000" | "1000 \<le> n"
    by linarith
  then show ?thesis
  proof cases
    case 1
    then show ?thesis
      using assms by (simp add: pad_def py_str_int_def str_digits_small zfill_digits digit_char_0 numeral_3_eq_3)
  next
    case 2
    then have "str_digits n = [digit_char (n div 10), digit_char n]"
      by (simp add: str_digits_big str_digits_small)
    then show ?thesis
      using assms 2 by (simp add: pad_def py_str_int_def zfill_digits digit_char_0 numeral_2_eq_2)
  next
    case 3
    then have "str_digits n = str_digits (n div 10) @ [digit_char n]"
      by (simp add: str_digits_big)
    moreover have "str_digits (n div 10) = [digit_char (n div 100), digit_char (n div 10)]"
      using 3 by (simp add: str_digits_big str_digits_small div10_10)
    ultimately show ?thesis
      using assms 3 by (simp add: pad_def py_str_int_def zfill_digits digit_char_0)
  next
    case 4
    then show ?thesis
      using assms by (simp add: pad_def py_str_int_def zfill_digits str_digits4)
  qed
qed

lemma digits_val2: "digits_val [digit_char a, digit_char b] = Some (10 * (a mod 10) + b mod 10)"
  by (simp add: digits_val_def dec_val_def digit_val_digit_char)

lemma digits_val4:
  "digits_val [digit_char a, digit_char b, digit_char c, digit_char d]
     = Some (1000 * (a mod 10) + 100 * (b mod 10) + 10 * (c mod 10) + d mod 10)"
  by (simp add: digits_val_def dec_val_def digit_val_digit_char)

lemma not_sign_digit [simp]: "not_sign (digit_char d)"
  using is_digit_not_sign[OF is_digit_digit_char, of d] by (simp add: not_sign_def)

lemma two_digits_value:
  assumes "0 \<le> n" "n < 100"
  shows "10 * (n div 10 mod 10) + n mod 10 = (n::int)"
proof -
  have "n div 10 < 10" "0 \<le> n div 10" using assms by auto
  then have "n div 10 mod 10 = n div 10" by simp
  then show ?thesis by simp
qed

lemma four_digits_value:
  assumes "0 \<le> n" "n < 10000"
  shows "1000 * (n div 1000 mod 10) + 100 * (n div 100 mod 10) + 10 * (n div 10 mod 10) + n mod 10
           = (n::int)"
proof -
  have "n div 1000 < 10" "0 \<le> n div 1000"
    using assms by (simp_all add: div_less_iff_less_mult pos_imp_zdiv_nonneg_iff)
  then have a: "n div 1000 mod 10 = n div 1000" by simp
  have e1: "10 * (n div 10) + n mod 10 = n" by simp
  have e2: "10 * (n div 100) + n div 10 mod 10 = n div 10"
    using mult_div_mod_eq[of 10 "n div 10"] by (simp only: div10_10)
  have e3: "10 * (n div 1000) + n div 100 mod 10 = n div 100"
    using mult_div_mod_eq[of 10 "n div 100"] by (simp only: div100_10)
  show ?thesis
    unfolding a using e1 e2 e3 by linarith
qed

lemma parse_hms_8:
  "parse_hms [a1, a2, CHR '':'', b1, b2, CHR '':'', c1, c2] =
     (case (digits_val [a1, a2], digits_val [b1, b2], digits_val [c1, c2]) of
        (Some h, Some m, Some s) \<Rightarrow> Some (h, m, s, 0) | _ \<Rightarrow> None)"
  by (simp add: parse_hms_def)

lemma parse_hms_5:
  "parse_hms [a1, a2, CHR '':'', b1, b2] =
     (case (digits_val [a1, a2], digits_val [b1, b2]) of
        (Some h, Some m) \<Rightarrow> Some (h, m, 0, 0) | _ \<Rightarrow> None)"
  by (simp add: parse_hms_def)


lemma parse_iso_time_14:
  assumes h: "0 \<le> h" "h < 100" and mi: "0 \<le> mi" "mi < 100" and s: "0 \<le> s" "s < 100"
      and oh: "0 \<le> oh" "oh < 100" and om: "0 \<le> om" "om < 100"
      and sg: "sg = CHR ''+'' \<or> sg = CHR ''-''"
  shows "parse_iso_time
           ([digit_char (h div 10), digit_char h, CHR '':'', digit_char (mi div 10), digit_char mi,
             CHR '':'', digit_char (s div 10), digit_char s]
            @ sg # [digit_char (oh div 10), digit_char oh, CHR '':'', digit_char (om div 10), digit_char om])
         = Some ((h, mi, s, 0),
                 Some ((if sg = CHR ''-'' then - 1 else 1) * ((oh * 3600 + om * 60) * 1000000)))"
proof -
  let ?t = "[digit_char (h div 10), digit_char h, CHR '':'', digit_char (mi div 10), digit_char mi,
             CHR '':'', digit_char (s div 10), digit_char s]"
  let ?z = "[digit_char (oh div 10), digit_char oh, CHR '':'', digit_char (om div 10), digit_char om]"
  have ns_colon: "not_sign CHR '':''" by (simp add: not_sign_def)
  have ns_sg: "\<not> not_sign sg" using sg by (auto simp: not_sign_def)
  have tw: "takeWhile not_sign (?t @ sg # ?z) = ?t"
    by (simp add: ns_colon ns_sg)
  have dw: "dropWhile not_sign (?t @ sg # ?z) = sg # ?z"
    by (simp add: ns_colon ns_sg)
  have hms: "parse_hms ?t = Some (h, mi, s, 0)"
    using h mi s by (simp add: parse_hms_8 digits_val2 two_digits_value)
  have tzp: "parse_hms ?z = Some (oh, om, 0, 0)"
    using oh om by (simp add: parse_hms_5 digits_val2 two_digits_value)
  show ?thesis
    unfolding parse_iso_time_def tw dw hms by (simp add: tzp)
qed


lemma parse_iso_fields_25:
  assumes y: "0 \<le> y" "y < 10000" and mo: "0 \<le> mo" "mo < 100" and d: "0 \<le> d" "d < 100"
      and h: "0 \<le> h" "h < 100" and mi: "0 \<le> mi" "mi < 100" and s: "0 \<le> s" "s < 100"
      and oh: "0 \<le> oh" "oh < 100" and om: "0 \<le> om" "om < 100"
      and sg: "sg = CHR ''+'' \<or> sg = CHR ''-''"
  shows "parse_iso_fields
           (pad 4 y @ ''-'' @ pad 2 mo @ ''-'' @ pad 2 d @ [sep] @ pad 2 h @ '':'' @ pad 2 mi
              @ '':'' @ pad 2 s @ [sg] @ pad 2 oh @ '':'' @ pad 2 om)
         = Some ((y, mo, d), (h, mi, s, 0),
                 Some ((if sg = CHR ''-'' then - 1 else 1) * ((oh * 3600 + om * 60) * 1000000)))"
proof -
  have t: "parse_iso_time
           ([digit_char (h div 10), digit_char h, CHR '':'', digit_char (mi div 10), digit_char mi,
             CHR '':'', digit_char (s div 10), digit_char s]
            @ sg # [digit_char (oh div 10), digit_char oh, CHR '':'', digit_char (om div 10), digit_char om])
         = Some ((h, mi, s, 0),
                 Some ((if sg = CHR ''-'' then - 1 else 1) * ((oh * 3600 + om * 60) * 1000000)))"
    using h mi s oh om sg by (rule parse_iso_time_14)
  have p: "pad 4 y = [digit_char (y div 1000), digit_char (y div 100), digit_char (y div 10), digit_char y]"
          "pad 2 mo = [digit_char (mo div 10), digit_char mo]"
          "pad 2 d = [digit_char (d div 10), digit_char d]"
          "pad 2 h = [digit_char (h div 10), digit_char h]"
          "pad 2 mi = [digit_char (mi div 10), digit_char mi]"
          "pad 2 s = [digit_char (s div 10), digit_char s]"
          "pad 2 oh = [digit_char (oh div 10), digit_char oh]"
          "pad 2 om = [digit_char (om div 10), digit_char om]"
    using assms by (simp_all add: pad2_eq pad4_eq)
  have v1: "digits_val [digit_char (y div 1000), digit_char (y div 100), digit_char (y div 10), digit_char y] = Some y"
    unfolding digits_val4 using four_digits_value[OF y] by (simp only:)
  have v2: "digits_val [digit_char (mo div 10), digit_char mo] = Some mo"
           "digits_val [digit_char (d div 10), digit_char d] = Some d"
    using mo d by (simp_all add: digits_val2 two_digits_value)
  note v = v1 v2
  show ?thesis
    unfolding p using t by (simp add: parse_iso_fields_def v)
qed

lemma parse_iso_fields_colonless:
  assumes y: "0 \<le> y" "y < 10000" and mo: "0 \<le> mo" "mo < 100" and d: "0 \<le> d" "d < 100"
      and h: "0 \<le> h" "h < 100" and mi: "0 \<le> mi" "mi < 100" and s: "0 \<le> s" "s < 100"
      and oh: "0 \<le> oh" "oh < 100" and om: "0 \<le> om" "om < 100"
      and sg: "sg = CHR ''+'' \<or> sg = CHR ''-''"
  shows "parse_iso_fields
           (pad 4 y @ ''-'' @ pad 2 mo @ ''-'' @ pad 2 d @ [sep] @ pad 2 h @ '':'' @ pad 2 mi
              @ '':'' @ pad 2 s @ [sg] @ pad 2 oh @ pad 2 om)
         = None"
proof -
  let ?t = "[digit_char (h div 10), digit_char h, CHR '':'', digit_char (mi div 10), digit_char mi,
             CHR '':'', digit_char (s div 10), digit_char s]"
  let ?z = "[digit_char (oh div 10), digit_char oh, digit_char (om div 10), digit_char om]"
  have ns_colon: "not_sign CHR '':''" by (simp add: not_sign_def)
  have ns_sg: "\<not> not_sign sg" using sg by (auto simp: not_sign_def)
  have dw: "dropWhile not_sign (?t @ sg # ?z) = sg # ?z"
    by (simp add: ns_colon ns_sg)
  have t: "parse_iso_time (?t @ sg # ?z) = None"
    unfolding parse_iso_time_def dw by (simp split: option.splits)
  have p: "pad 4 y = [digit_char (y div 1000), digit_char (y div 100), digit_char (y div 10), digit_char y]"
          "pad 2 mo = [digit_char (mo div 10), digit_char mo]"
          "pad 2 d = [digit_char (d div 10), digit_char d]"
          "pad 2 h = [digit_char (h div 10), digit_char h]"
          "pad 2 mi = [digit_char (mi div 10), digit_char mi]"
          "pad 2 s = [digit_char (s div 10), digit_char s]"
          "pad 2 oh = [digit_char (oh div 10), digit_char oh]"
          "pad 2 om = [digit_char (om div 10), digit_char om]"
    using assms by (simp_all add: pad2_eq pad4_eq)
  show ?thesis
    unfolding p using t by (simp add: parse_iso_fields_def split: option.splits)
qed

lemma offset_text_whole_minutes:
  assumes "off mod 60000000 = 0"
  shows "offset_text colons off =
           [if off < 0 then CHR ''-'' else CHR ''+'']
           @ pad 2 (\<bar>off\<bar> div 3600000000)
           @ (if colons then [CHR '':''] else [])
           @ pad 2 (\<bar>off\<bar> mod 3600000000 div 60000000)"
proof -
  have "60000000 dvd off" using assms by (simp add: dvd_eq_mod_eq_0)
  then have dv: "60000000 dvd \<bar>off\<bar>" by simp
  then have a: "\<bar>off\<bar> mod 60000000 = 0" by (simp add: dvd_eq_mod_eq_0)
  have "(1000000::int) dvd 60000000" by simp
  then have "1000000 dvd \<bar>off\<bar>" using dv by (rule dvd_trans)
  then have b: "\<bar>off\<bar> mod 1000000 = 0" by (simp add: dvd_eq_mod_eq_0)
  show ?thesis
    by (simp add: offset_text_def Let_def a b)
qed

lemma offset_value_whole_minutes:
  assumes "(off::int) mod 60000000 = 0"
  shows "(if off < 0 then - 1 else 1)
           * ((\<bar>off\<bar> div 3600000000 * 3600 + \<bar>off\<bar> mod 3600000000 div 60000000 * 60) * 1000000) = off"
proof -
  define a where "a = \<bar>off\<bar>"
  have "60000000 dvd off" using assms by (simp add: dvd_eq_mod_eq_0)
  then have "60000000 dvd a" by (simp add: a_def)
  then obtain k where k: "a = 60000000 * k" by (auto simp: dvd_def)
  have e1: "60000000 * k div 3600000000 = k div 60"
    using zdiv_zmult2_eq[of 60 "60000000 * k" 60000000] by simp
  have "60000000 * k mod 3600000000 = 60000000 * (k mod 60)"
    using mult_mod_right[of 60000000 k 60] by simp
  then have e2: "60000000 * k mod 3600000000 div 60000000 = k mod 60" by simp
  define q where "q = k div 60"
  define r where "r = k mod 60"
  have kq: "k = 60 * q + r" by (simp add: q_def r_def)
  have "(q * 3600 + r * 60) * 1000000 = 60000000 * k"
    unfolding kq by (simp add: algebra_simps)
  then have "(a div 3600000000 * 3600 + a mod 3600000000 div 60000000 * 60) * 1000000 = a"
    unfolding k e1 e2 q_def r_def .
  then show ?thesis by (auto simp: a_def)
qed

lemma is_digit_val: "is_digit c \<Longrightarrow> 0 \<le> the (digit_val c) \<and> the (digit_val c) \<le> 9"
  by (auto simp: is_digit_def digit_val_def split: if_splits)

lemma dec_val_bounds: "list_all is_digit s \<Longrightarrow> 0 \<le> dec_val s \<and> dec_val s < 10 ^ length s"
proof (induction s rule: rev_induct)
  case Nil
  then show ?case by (simp add: dec_val_def)
next
  case (snoc c s)
  then have ih: "0 \<le> dec_val s" "dec_val s < 10 ^ length s" by simp_all
  have c: "0 \<le> the (digit_val c)" "the (digit_val c) \<le> 9"
    using snoc.prems is_digit_val[of c] by simp_all
  have "10 * dec_val s + the (digit_val c) < 10 * 10 ^ length s"
    using ih c by linarith
  then show ?case using ih c by (simp add: dec_val_snoc)
qed

lemma digits_val_bounds:
  "digits_val s = Some v \<Longrightarrow> 0 \<le> v \<and> v < 10 ^ length s"
  using dec_val_bounds[of s] by (auto simp: digits_val_def split: if_splits)

lemma parse_hms_bounds:
  assumes "parse_hms t = Some (h, m, s, u)"
  shows "0 \<le> h \<and> 0 \<le> m \<and> 0 \<le> s \<and> 0 \<le> u \<and> u < 1000000"
proof -
  consider (a) "length t = 2" | (b) "length t = 5" | (c) "length t = 8"
    | (d) "length t = 12" | (e) "length t = 15"
    using assms by (auto simp: parse_hms_def Let_def split: if_splits)
  then show ?thesis
  proof cases
    case a
    with assms show ?thesis
      by (auto simp: parse_hms_def Let_def split: option.splits dest: digits_val_bounds)
  next
    case b
    with assms show ?thesis
      by (auto simp: parse_hms_def Let_def split: option.splits if_splits dest: digits_val_bounds)
  next
    case c
    with assms show ?thesis
      by (auto simp: parse_hms_def Let_def split: option.splits if_splits dest: digits_val_bounds)
  next
    case d
    with assms obtain f where f: "digits_val (drop 9 t) = Some f" "u = f * 1000"
      and r: "0 \<le> h \<and> 0 \<le> m \<and> 0 \<le> s"
      by (auto simp: parse_hms_def Let_def split: option.splits if_splits dest: digits_val_bounds)
    have "0 \<le> f \<and> f < 10 ^ 3" using digits_val_bounds[OF f(1)] d by simp
    with f r show ?thesis by simp
  next
    case e
    with assms obtain f where f: "digits_val (drop 9 t) = Some f" "u = f"
      and r: "0 \<le> h \<and> 0 \<le> m \<and> 0 \<le> s"
      by (auto simp: parse_hms_def Let_def split: option.splits if_splits dest: digits_val_bounds)
    have "0 \<le> f \<and> f < 10 ^ 6" using digits_val_bounds[OF f(1)] e by simp
    with f r show ?thesis by simp
  qed
qed

lemma parse_iso_time_bounds:
  assumes "parse_iso_time t = Some ((h, m, s, u), tz)"
  shows "0 \<le> h \<and> 0 \<le> m \<and> 0 \<le> s \<and> 0 \<le> u \<and> u < 1000000"
proof -
  from assms have "parse_hms (takeWhile not_sign t) = Some (h, m, s, u)"
    by (auto simp: parse_iso_time_def split: option.splits list.splits if_splits)
  then show ?thesis by (rule parse_hms_bounds)
qed

lemma parse_iso_fields_bounds:
  assumes "parse_iso_fields x = Some ((y, mo, d), (h, m, s, u), tz)"
  shows "0 \<le> h \<and> 0 \<le> m \<and> 0 \<le> s \<and> 0 \<le> u \<and> u < 1000000"
proof (cases "length x = 10")
  case True
  with assms show ?thesis
    by (auto simp: parse_iso_fields_def split: option.splits if_splits)
next
  case False
  with assms obtain hms where "parse_iso_time (drop 11 x) = Some (hms, tz)" "hms = (h, m, s, u)"
    by (auto simp: parse_iso_fields_def split: option.splits if_splits)
  then show ?thesis using parse_iso_time_bounds by simp
qed

lemma iso_parse_ok:
  assumes "iso_parse x = Inr dt"
  shows "datetime_ok dt"
proof -
  from assms obtain y mo d h m s u tz where
    f: "parse_iso_fields x = Some ((y, mo, d), (h, m, s, u), tz)"
    by (auto simp: iso_parse_def split: option.splits)
  note b = parse_iso_fields_bounds[OF f]
  show ?thesis
    using assms b unfolding iso_parse_def f
    by (auto simp: datetime_ok_def split: if_splits option.splits)
qed

lemma offset_parts_bounds:
  assumes "\<bar>off::int\<bar> < 86400000000"
  shows "0 \<le> \<bar>off\<bar> div 3600000000" "\<bar>off\<bar> div 3600000000 < 100"
        "0 \<le> \<bar>off\<bar> mod 3600000000 div 60000000" "\<bar>off\<bar> mod 3600000000 div 60000000 < 100"
proof -
  show "0 \<le> \<bar>off\<bar> div 3600000000" by (simp add: pos_imp_zdiv_nonneg_iff)
  show "\<bar>off\<bar> div 3600000000 < 100"
    using assms by (simp add: div_less_iff_less_mult)
  show "0 \<le> \<bar>off\<bar> mod 3600000000 div 60000000" by (simp add: pos_imp_zdiv_nonneg_iff)
  have "\<bar>off\<bar> mod 3600000000 < 3600000000" by simp
  then show "\<bar>off\<bar> mod 3600000000 div 60000000 < 100"
    by (simp add: div_less_iff_less_mult)
qed

lemma days_in_month_le: "1 \<le> m \<Longrightarrow> m \<le> 12 \<Longrightarrow> days_in_month y m \<le> 31"
proof -
  assume "1 \<le> m" "m \<le> 12"
  then have "m = 1 \<or> m = 2 \<or> m = 3 \<or> m = 4 \<or> m = 5 \<or> m = 6 \<or> m = 7 \<or> m = 8
               \<or> m = 9 \<or> m = 10 \<or> m = 11 \<or> m = 12" by arith
  then show ?thesis by (auto simp: days_in_month_def days_in_month_table_def)
qed

lemma datetime_ok_digits:
  assumes "datetime_ok dt"
  shows "0 \<le> year dt" "year dt < 10000" "0 \<le> month dt" "month dt < 100"
        "0 \<le> day dt" "day dt < 100" "0 \<le> hour dt" "hour dt < 100"
        "0 \<le> minute dt" "minute dt < 100" "0 \<le> second dt" "second dt < 100"
  using assms days_in_month_le[of "month dt" "year dt"] by (auto simp: datetime_ok_def)

lemma iso_parse_canonical:
  assumes ok: "datetime_ok dt" and tz: "tzinfo dt = Some off"
      and us: "microsecond dt = 0" and wm: "off mod 60000000 = 0"
  shows "iso_parse (pad 4 (year dt) @ ''-'' @ pad 2 (month dt) @ ''-'' @ pad 2 (day dt) @ [sep]
                    @ pad 2 (hour dt) @ '':'' @ pad 2 (minute dt) @ '':'' @ pad 2 (second dt)
                    @ offset_text True off) = Inr dt"
proof -
  define oh where "oh = \<bar>off\<bar> div 3600000000"
  define om where "om = \<bar>off\<bar> mod 3600000000 div 60000000"
  define sg where "sg = (if off < 0 then CHR ''-'' else CHR ''+'')"
  have ob: "\<bar>off\<bar> < 86400000000" using ok tz by (simp add: datetime_ok_def)
  note opb = offset_parts_bounds[OF ob, folded oh_def om_def]
  have sgc: "sg = CHR ''+'' \<or> sg = CHR ''-''" by (simp add: sg_def)
  have ot: "offset_text True off = [sg] @ pad 2 oh @ '':'' @ pad 2 om"
    using offset_text_whole_minutes[OF wm, of True] by (simp add: oh_def om_def sg_def)
  have sgm: "(if sg = CHR ''-'' then - 1 else 1) = (if off < 0 then - 1 else (1::int))"
    by (simp add: sg_def)
  have ov: "(if sg = CHR ''-'' then - 1 else 1) * ((oh * 3600 + om * 60) * 1000000) = off"
    unfolding sgm oh_def om_def by (rule offset_value_whole_minutes[OF wm])
  note b = datetime_ok_digits[OF ok]
  have f: "parse_iso_fields
             (pad 4 (year dt) @ ''-'' @ pad 2 (month dt) @ ''-'' @ pad 2 (day dt) @ [sep]
                @ pad 2 (hour dt) @ '':'' @ pad 2 (minute dt) @ '':'' @ pad 2 (second dt)
                @ [sg] @ pad 2 oh @ '':'' @ pad 2 om)
           = Some ((year dt, month dt, day dt), (hour dt, minute dt, second dt, 0), Some off)"
    using parse_iso_fields_25[OF b opb sgc, of sep] by (simp only: ov)
  have c: "1 \<le> year dt" "year dt \<le> 9999" "1 \<le> month dt" "month dt \<le> 12" "1 \<le> day dt"
          "day dt \<le> days_in_month (year dt) (month dt)" "hour dt \<le> 23" "minute dt \<le> 59"
          "second dt \<le> 59"
    using ok by (auto simp: datetime_ok_def)
  have "iso_parse (pad 4 (year dt) @ ''-'' @ pad 2 (month dt) @ ''-'' @ pad 2 (day dt) @ [sep]
                    @ pad 2 (hour dt) @ '':'' @ pad 2 (minute dt) @ '':'' @ pad 2 (second dt)
                    @ [sg] @ pad 2 oh @ '':'' @ pad 2 om)
        = Inr \<lparr>year = year dt, month = month dt, day = day dt, hour = hour dt, minute = minute dt,
                second = second dt, microsecond = 0, tzinfo = Some off\<rparr>"
    unfolding iso_parse_def f using c ob by simp
  then show ?thesis
    unfolding ot using us tz by simp
qed

lemma iso_parse_colonless:
  assumes ok: "datetime_ok dt" and tz: "tzinfo dt = Some off" and wm: "off mod 60000000 = 0"
  shows "\<exists>msg. iso_parse (pad 4 (year dt) @ ''-'' @ pad 2 (month dt) @ ''-'' @ pad 2 (day dt) @ [sep]
                    @ pad 2 (hour dt) @ '':'' @ pad 2 (minute dt) @ '':'' @ pad 2 (second dt)
                    @ offset_text False off) = Inl msg"
proof -
  define oh where "oh = \<bar>off\<bar> div 3600000000"
  define om where "om = \<bar>off\<bar> mod 3600000000 div 60000000"
  define sg where "sg = (if off < 0 then CHR ''-'' else CHR ''+'')"
  have ob: "\<bar>off\<bar> < 86400000000" using ok tz by (simp add: datetime_ok_def)
  note opb = offset_parts_bounds[OF ob, folded oh_def om_def]
  have sgc: "sg = CHR ''+'' \<or> sg = CHR ''-''" by (simp add: sg_def)
  have ot: "offset_text False off = [sg] @ pad 2 oh @ pad 2 om"
    using offset_text_whole_minutes[OF wm, of False] by (simp add: oh_def om_def sg_def)
  note b = datetime_ok_digits[OF ok]
  show ?thesis
    unfolding ot iso_parse_def
    using parse_iso_fields_colonless[OF b opb sgc, of sep] by simp
qed

lemma parse_timestamp_fallback:
  assumes shape: "ts = base @ [sg, h1, h2, m1, m2]"
      and sg: "sg = CHR ''+'' \<or> sg = CHR ''-''"
      and h2: "h2 \<noteq> CHR '':''"
      and direct: "fromisoformat lib ts = Inl msg"
  shows "parse_timestamp lib ts =
           (case fromisoformat lib (base @ [sg, h1, h2] @ '':'' @ [m1, m2]) of
              Inl m \<Rightarrow> Inl (ValueError m) | Inr dt \<Rightarrow> Inr dt)"
proof -
  have len: "length ts = length base + 5" using shape by simp
  have i5: "ts ! (length ts - 5) = sg" using shape by (simp add: nth_append)
  have i3: "ts ! (length ts - 3) = h2" using shape by (simp add: nth_append)
  have wc: "take (length ts - 2) ts @ '':'' @ drop (length ts - 2) ts
              = base @ [sg, h1, h2] @ '':'' @ [m1, m2]"
    using shape by simp
  show ?thesis
    unfolding parse_timestamp_def Let_def wc
    using len i5 i3 sg h2 direct by auto
qed

lemma parsed_by_iso_parse_ok:
  assumes lib: "fromisoformat lib = iso_parse" and p: "parse_timestamp lib ts = Inr dt"
  shows "datetime_ok dt"
proof -
  from p lib obtain x where "iso_parse x = Inr dt"
    by (auto simp: parse_timestamp_def Let_def split: sum.splits if_splits)
  then show ?thesis by (rule iso_parse_ok)
qed

lemma offset_template_translation:
  "convert_readable_to_strftime ''YYYY-MM-DDTHH:MI:SSoffset'' = ''%Y-%m-%dT%H:%M:%S%z''"
  by code_simp

lemma offset_template_plain:
  "str_contains ''nnnnnnnnn'' ''YYYY-MM-DDTHH:MI:SSoffset'' = False"
  "str_contains ''Z'' ''YYYY-MM-DDTHH:MI:SSoffset'' = False"
  by code_simp+

lemma year_text_four:
  assumes "1 \<le> y" "y \<le> 9999" "1000 \<le> y \<or> padded"
  shows "(if padded then pad 4 y else py_str_int y) = pad 4 y"
proof (cases padded)
  case True
  then show ?thesis by simp
next
  case False
  with assms have "1000 \<le> y" by simp
  then show ?thesis
    using assms False by (simp add: py_str_int_def str_digits4 pad4_eq)
qed

text \<open>
  C4 (amended). With the library parser for the documented ISO format: if a timestamp
  parses to a value with an offset of whole minutes, no fractional second and a year
  that the C library writes with four digits, then formatting it with
  \<open>YYYY-MM-DDTHH:MI:SSoffset\<close> succeeds, and parsing the result gives the same
  value back, hence the same instant.
\<close>

theorem offset_template_round_trip:
  assumes lib: "fromisoformat lib = iso_parse"
      and p: "parse_timestamp lib ts = Inr dt"
      and tz: "tzinfo dt = Some off"
      and us: "microsecond dt = 0"
      and wm: "off mod 60000000 = 0"
      and yr: "1000 \<le> year dt \<or> year_padded lib"
  shows "\<exists>s. convert_timestamp_format lib ts ''YYYY-MM-DDTHH:MI:SSoffset'' = Inr s
             \<and> parse_timestamp lib s = Inr dt"
proof -
  have ok: "datetime_ok dt" using lib p by (rule parsed_by_iso_parse_ok)
  define front where
    "front = pad 4 (year dt) @ ''-'' @ pad 2 (month dt) @ ''-'' @ pad 2 (day dt) @ ''T''
               @ pad 2 (hour dt) @ '':'' @ pad 2 (minute dt) @ '':'' @ pad 2 (second dt)"
  define oh where "oh = \<bar>off\<bar> div 3600000000"
  define om where "om = \<bar>off\<bar> mod 3600000000 div 60000000"
  define sg where "sg = (if off < 0 then CHR ''-'' else CHR ''+'')"
  have ob: "\<bar>off\<bar> < 86400000000" using ok tz by (simp add: datetime_ok_def)
  note opb = offset_parts_bounds[OF ob, folded oh_def om_def]
  have sgc: "sg = CHR ''+'' \<or> sg = CHR ''-''" by (simp add: sg_def)
  have p1: "pad 2 oh = [digit_char (oh div 10), digit_char oh]"
    using opb(1,2) by (rule pad2_eq)
  have p2: "pad 2 om = [digit_char (om div 10), digit_char om]"
    using opb(3,4) by (rule pad2_eq)
  have "offset_text False off = [sg] @ pad 2 oh @ pad 2 om"
    using offset_text_whole_minutes[OF wm, of False] by (simp add: oh_def om_def sg_def)
  then have otF: "offset_text False off = [sg, digit_char (oh div 10), digit_char oh,
                                      digit_char (om div 10), digit_char om]"
    unfolding p1 p2 by simp
  have "offset_text True off = [sg] @ pad 2 oh @ '':'' @ pad 2 om"
    using offset_text_whole_minutes[OF wm, of True] by (simp add: oh_def om_def sg_def)
  then have otT: "offset_text True off = [sg, digit_char (oh div 10), digit_char oh] @ '':''
                                      @ [digit_char (om div 10), digit_char om]"
    unfolding p1 p2 by simp
  have yt: "(if year_padded lib then pad 4 (year dt) else py_str_int (year dt)) = pad 4 (year dt)"
    using ok yr by (intro year_text_four) (auto simp: datetime_ok_def)
  have fmt: "strftime lib dt ''%Y-%m-%dT%H:%M:%S%z'' = front @ offset_text False off"
    by (simp add: strftime_directive_def yt utcoffset_text_def tz front_def)
  have conv: "convert_timestamp_format lib ts ''YYYY-MM-DDTHH:MI:SSoffset''
                = Inr (front @ offset_text False off)"
  proof -
    have ne: "''YYYY-MM-DDTHH:MI:SSoffset'' \<noteq> ''epoch_ms''"
             "''YYYY-MM-DDTHH:MI:SSoffset'' \<noteq> ''epoch_sec''"
      by simp_all
    show ?thesis
      unfolding convert_timestamp_format_def
      by (simp only: p then_exc_def sum.case ne if_False offset_template_plain Let_def
            offset_template_translation fmt reraise_def)
  qed
  obtain msg where rej: "iso_parse (front @ offset_text False off) = Inl msg"
    using iso_parse_colonless[OF ok tz wm, of "CHR ''T''"] by (auto simp: front_def)
  have acc: "iso_parse (front @ offset_text True off) = Inr dt"
    using iso_parse_canonical[OF ok tz us wm, of "CHR ''T''"] by (simp add: front_def)
  have dc: "digit_char oh \<noteq> CHR '':''"
    using is_digit_not_sign[OF is_digit_digit_char, of oh] by simp
  have "parse_timestamp lib (front @ offset_text False off) = Inr dt"
    using parse_timestamp_fallback[of "front @ offset_text False off" front sg
            "digit_char (oh div 10)" "digit_char oh" "digit_char (om div 10)" "digit_char om" lib msg]
          sgc dc rej acc
    by (simp add: otF otT lib)
  with conv show ?thesis by blast
qed

theorem offset_template_round_trip_witness:
  "convert_timestamp_format reference_lib ''2025-11-01T00:00:00-08:00'' ''YYYY-MM-DDTHH:MI:SSoffset''
     = Inr ''2025-11-01T00:00:00-0800''
   \<and> parse_timestamp reference_lib ''2025-11-01T00:00:00-0800''
     = Inr \<lparr>year = 2025, month = 11, day = 1, hour = 0, minute = 0, second = 0,
            microsecond = 0, tzinfo = Some (- 28800000000)\<rparr>"
proof -
  let ?dt = "\<lparr>year = 2025, month = 11, day = 1, hour = 0, minute = 0, second = 0,
              microsecond = 0, tzinfo = Some (- 28800000000)\<rparr>"
  have h1: "fromisoformat reference_lib = iso_parse" by (simp add: reference_lib_def)
  have h2: "parse_timestamp reference_lib ''2025-11-01T00:00:00-08:00'' = Inr ?dt" by code_simp
  have h3: "tzinfo ?dt = Some (- 28800000000)" by simp
  have h4: "microsecond ?dt = 0" by simp
  have h5: "(- 28800000000 :: int) mod 60000000 = 0" by simp
  have h6: "1000 \<le> year ?dt \<or> year_padded reference_lib" by simp
  have e: "convert_timestamp_format reference_lib ''2025-11-01T00:00:00-08:00''
             ''YYYY-MM-DDTHH:MI:SSoffset'' = Inr ''2025-11-01T00:00:00-0800''"
    by code_simp
  from offset_template_round_trip[OF h1 h2 h3 h4 h5 h6] obtain s where
    s: "convert_timestamp_format reference_lib ''2025-11-01T00:00:00-08:00''
          ''YYYY-MM-DDTHH:MI:SSoffset'' = Inr s"
       "parse_timestamp reference_lib s = Inr ?dt"
    by blast
  from s(1) e have "s = ''2025-11-01T00:00:00-0800''" by simp
  with s(2) e show ?thesis by simp
qed

text \<open>
  As stated for every offset-bearing timestamp, C4 fails: the template has no place
  for the fraction of a second, so half a second is lost on the way.
\<close>

theorem round_trip_loses_fraction:
  "parse_timestamp reference_lib ''2025-11-01T00:00:00.500000-08:00''
     = Inr \<lparr>year = 2025, month = 11, day = 1, hour = 0, minute = 0, second = 0,
            microsecond = 500000, tzinfo = Some (- 28800000000)\<rparr>
   \<and> convert_timestamp_format reference_lib ''2025-11-01T00:00:00.500000-08:00''
         ''YYYY-MM-DDTHH:MI:SSoffset''
     = Inr ''2025-11-01T00:00:00-0800''
   \<and> parse_timestamp reference_lib ''2025-11-01T00:00:00-0800''
     = Inr \<lparr>year = 2025, month = 11, day = 1, hour = 0, minute = 0, second = 0,
            microsecond = 0, tzinfo = Some (- 28800000000)\<rparr>
   \<and> instant_micros \<lparr>year = 2025, month = 11, day = 1, hour = 0, minute = 0, second = 0,
            microsecond = 500000, tzinfo = Some (- 28800000000)\<rparr>
       - instant_micros \<lparr>year = 2025, month = 11, day = 1, hour = 0, minute = 0, second = 0,
            microsecond = 0, tzinfo = Some (- 28800000000)\<rparr>
     = 500000"
  by code_simp


section \<open>Rounding stays finite; results for format\_difference\<close>





lemma pow2_nonneg_exp: "0 \<le> k \<Longrightarrow> pow2 k = 2 ^ nat k"
  by (simp add: pow2_def)

lemma pow2_pos [simp]: "0 < pow2 k"
  by (simp add: pow2_def)

lemma pow2_neg_exp: "k \<le> 0 \<Longrightarrow> pow2 k = 1"
  by (simp add: pow2_def)






lemma py_cmp_ints: "py_cmp (PyInt a) (PyInt b) = Some (sgn (a - b))"
  by (simp add: py_cmp_def smant_def pow2_def)

lemma py_ge_ints [simp]: "py_ge (PyInt a) (PyInt b) \<longleftrightarrow> b \<le> a"
  by (auto simp: py_ge_def py_cmp_ints sgn_if)

lemma py_lt_ints [simp]: "py_lt (PyInt a) (PyInt b) \<longleftrightarrow> a < b"
  by (auto simp: py_lt_def py_cmp_ints sgn_if)

lemma py_gt_ints [simp]: "py_gt (PyInt a) (PyInt b) \<longleftrightarrow> b < a"
  by (auto simp: py_gt_def py_cmp_ints sgn_if)












end
